theory Spec2Isabelle
  imports Main "HOL-Library.Word"
begin

unbundle bit_operations_syntax

section \<open>Frame model\<close>

text \<open>
  A bus message as \<^verbatim>\<open>base_actions.py\<close> uses it: the arbitration identifier (a Python
  integer) and the payload, a byte array. Reading a byte gives a Python integer in
  \<open>[0, 255]\<close>, written \<open>uint b\<close> below.
\<close>

type_synonym byte = "8 word"

record frame =
  arbitration_id :: int
  data :: "byte list"

text \<open>The service identifiers of the module that the modelled methods use.\<close>

definition READ_BY_IDENTIFIER :: int where
  "READ_BY_IDENTIFIER = 0x022"

definition AUTHENTICATION :: int where
  "AUTHENTICATION = 0x29"

text \<open>
  The exceptions the modelled code can raise. \<open>CustomError\<close> carries the JSON error
  response of \<^verbatim>\<open>_to_json_error\<close>.
\<close>

record envelope =
  ERROR :: string
  No_of_errors :: int
  time_stamp :: string

datatype error = IndexError | TypeError | AttributeError | CustomError envelope

text \<open>\<^verbatim>\<open>msg.data[i]\<close> for a non-negative literal \<open>i\<close>: out of range raises IndexError.\<close>

definition byte_at :: "byte list \<Rightarrow> nat \<Rightarrow> error + byte" where
  "byte_at d i = (if i < length d then Inr (d ! i) else Inl IndexError)"

section \<open>Response verifier\<close>

text \<open>
  \<^verbatim>\<open>Action.__verify_frame(msg, sid)\<close>, with \<^verbatim>\<open>self.my_id\<close> as the first argument. The
  sender test returns before the payload is read; each payload read can raise.
\<close>

definition verify_frame :: "int \<Rightarrow> frame \<Rightarrow> int \<Rightarrow> error + bool" where
  "verify_frame my_id msg sid =
     (if arbitration_id msg mod 0x100 \<noteq> my_id then Inr False
      else case byte_at (data msg) 0 of
        Inl e \<Rightarrow> Inl e
      | Inr b0 \<Rightarrow>
          if b0 \<noteq> 0x10 then
            (case byte_at (data msg) 1 of
               Inl e \<Rightarrow> Inl e
             | Inr b1 \<Rightarrow> if uint b1 \<noteq> sid + 0x40 then Inr False else Inr True)
          else
            (case byte_at (data msg) 2 of
               Inl e \<Rightarrow> Inl e
             | Inr b2 \<Rightarrow> if uint b2 \<noteq> sid + 0x40 then Inr False else Inr True))"

section \<open>Data extractor\<close>

text \<open>
  The three handlers. A slice \<^verbatim>\<open>msg.data[k:]\<close> never raises: past the end it is empty,
  which is what \<open>drop\<close> gives. Only the index \<^verbatim>\<open>msg.data[2]\<close> of ReadByAddress can raise.
  The extracted bytes are handed on as Python integers.
\<close>

definition ReadByIdentifier_data_from_frame :: "frame \<Rightarrow> error + int list" where
  "ReadByIdentifier_data_from_frame msg = Inr (map uint (drop 4 (data msg)))"

definition ReadByAddress_data_from_frame :: "frame \<Rightarrow> error + int list" where
  "ReadByAddress_data_from_frame msg =
     (case byte_at (data msg) 2 of
        Inl e \<Rightarrow> Inl e
      | Inr addr_siz_len \<Rightarrow>
          let byte_start_data = uint addr_siz_len mod 0x10 + uint addr_siz_len div 0x10
          in Inr (map uint (drop (nat (3 + byte_start_data)) (data msg))))"

definition AuthenticationSeed_data_from_frame :: "frame \<Rightarrow> error + int list" where
  "AuthenticationSeed_data_from_frame msg = Inr (map uint (drop 3 (data msg)))"

text \<open>The dictionary \<^verbatim>\<open>handlers\<close> of \<^verbatim>\<open>Action._data_from_frame\<close>, keyed by response code.\<close>

definition handlers :: "int \<rightharpoonup> (frame \<Rightarrow> error + int list)" where
  "handlers =
     [0x62 \<mapsto> ReadByIdentifier_data_from_frame,
      0x63 \<mapsto> ReadByAddress_data_from_frame,
      0x29 \<mapsto> AuthenticationSeed_data_from_frame]"

text \<open>
  \<^verbatim>\<open>Action._data_from_frame(msg)\<close>. An absent frame gives the stand-in list
  \<^verbatim>\<open>[1,2,3,4,5]\<close>; a code without a handler gives \<open>None\<close>.
\<close>

definition data_from_frame :: "frame option \<Rightarrow> error + int list option" where
  "data_from_frame m =
     (case m of
        None \<Rightarrow> Inr (Some [1, 2, 3, 4, 5])
      | Some msg \<Rightarrow>
          (case byte_at (data msg) 0 of
             Inl e \<Rightarrow> Inl e
           | Inr b0 \<Rightarrow>
               (case (if b0 \<noteq> 0x10 then byte_at (data msg) 1 else byte_at (data msg) 2) of
                  Inl e \<Rightarrow> Inl e
                | Inr code \<Rightarrow>
                    (case handlers (uint code) of
                       Some handler \<Rightarrow>
                         (case handler msg of Inl e \<Rightarrow> Inl e | Inr d \<Rightarrow> Inr (Some d))
                     | None \<Rightarrow> Inr None))))"

section \<open>Response collector\<close>

text \<open>
  The transport: the results of the successive polls \<^verbatim>\<open>self.bus.recv(3)\<close>, each a frame
  or \<open>None\<close> for a poll that timed out. Once the list is used up every poll times out.
\<close>

type_synonym incoming = "frame option list"

fun recv :: "incoming \<Rightarrow> frame option \<times> incoming" where
  "recv [] = (None, [])"
| "recv (r # rest) = (r, rest)"

text \<open>
  The expression \<^verbatim>\<open>msg[1:]\<close> subscripts the message object itself, not its payload
  (the Consecutive-Frame branch slices \<^verbatim>\<open>msg.data[1:]\<close>). The message class of the
  transport library defines no subscript operation, so the expression raises TypeError
  for every message.
\<close>

definition msg_getitem_from_1 :: "frame \<Rightarrow> error + frame" where
  "msg_getitem_from_1 msg = Inl TypeError"

text \<open>
  The polling loop of \<^verbatim>\<open>Action.__collect_response\<close>, on the loop variables \<^verbatim>\<open>flag\<close>,
  \<^verbatim>\<open>msg_ext\<close> and \<^verbatim>\<open>msg\<close>; it returns them with what is left of the transport.
\<close>

function collect_loop ::
  "bool \<Rightarrow> frame option \<Rightarrow> frame option \<Rightarrow> incoming \<Rightarrow>
     error + (bool \<times> frame option \<times> frame option \<times> incoming)" where
  "collect_loop flag msg_ext None b = Inr (flag, msg_ext, None, b)"
| "collect_loop flag msg_ext (Some msg) b =
     (case byte_at (data msg) 0 of
        Inl e \<Rightarrow> Inl e
      | Inr b0 \<Rightarrow>
          if b0 = 0x10 then
            (case msg_getitem_from_1 msg of
               Inl e \<Rightarrow> Inl e
             | Inr m1 \<Rightarrow> collect_loop True (Some m1) (fst (recv b)) (snd (recv b)))
          else if flag \<and> 0x20 < b0 \<and> b0 < 0x30 then
            (case msg_ext of
               None \<Rightarrow> Inl AttributeError
             | Some ext \<Rightarrow>
                 collect_loop flag (Some (ext\<lparr>data := data ext @ drop 1 (data msg)\<rparr>))
                   (fst (recv b)) (snd (recv b)))
          else Inr (flag, msg_ext, Some msg, b))"
  by pat_completeness auto
termination
  by (relation "measure (\<lambda>(flag, msg_ext, m, b).
        (case m of None \<Rightarrow> 0 | Some _ \<Rightarrow> 1) + 2 * length b)")
     (simp, (case_tac b; simp split: option.splits)+)

text \<open>\<^verbatim>\<open>Action.__collect_response(sid)\<close>: the loop, then the verifier on what it kept.\<close>

definition collect_response :: "int \<Rightarrow> int \<Rightarrow> incoming \<Rightarrow> error + (frame option \<times> incoming)" where
  "collect_response my_id sid b =
     (case collect_loop False None (fst (recv b)) (snd (recv b)) of
        Inl e \<Rightarrow> Inl e
      | Inr (flag, msg_ext, msg, b') \<Rightarrow>
          (case (if flag then msg_ext else msg) of
             None \<Rightarrow> Inr (None, b')
           | Some m \<Rightarrow>
               (case verify_frame my_id m sid of
                  Inl e \<Rightarrow> Inl e
                | Inr ok \<Rightarrow> if ok then Inr (Some m, b') else Inr (None, b'))))"

section \<open>Action orchestrator\<close>

text \<open>
  The requests handed to the frame generator, in the order sent, and the state of one
  diagnostic run: the transport, the requests sent so far and the clock reading that
  \<^verbatim>\<open>_to_json_error\<close> stamps its response with. Calls to the logger are left out; the
  argument \<^verbatim>\<open>error_str\<close> of \<^verbatim>\<open>_passive_response\<close> only feeds them.
\<close>

datatype request =
    Authentication_seed int
  | Authentication_key int "int list"
  | Read_data_by_identifier int int

record session =
  bus :: incoming
  sent :: "request list"
  clock :: string

definition to_json_error :: "string \<Rightarrow> string \<Rightarrow> int \<Rightarrow> envelope" where
  "to_json_error now err no_errors =
     \<lparr>ERROR = err, No_of_errors = no_errors, time_stamp = now\<rparr>"

text \<open>
  \<^verbatim>\<open>Action._passive_response(sid)\<close>. The error response is built and bound to a local
  name; the \<^verbatim>\<open>raise CustomError(response_json)\<close> after it is commented out in the
  source, so the method returns the absent response.
\<close>

definition passive_response :: "int \<Rightarrow> int \<Rightarrow> session \<Rightarrow> error + (frame option \<times> session)" where
  "passive_response my_id sid st =
     (case collect_response my_id sid (bus st) of
        Inl e \<Rightarrow> Inl e
      | Inr (response, b') \<Rightarrow>
          if response = None then
            (let response_json = to_json_error (clock st) ''interrupted'' 1
             in Inr (response, st\<lparr>bus := b'\<rparr>))
          else Inr (response, st\<lparr>bus := b'\<rparr>))"

section \<open>Authentication handshake\<close>

text \<open>\<^verbatim>\<open>Action.__algorithm(seed)\<close>: the loop appends one key value per seed value.\<close>

fun algorithm_loop :: "int list \<Rightarrow> int list \<Rightarrow> int list" where
  "algorithm_loop key [] = key"
| "algorithm_loop key (val # seed) =
     (let bit_width = 8;
          val' = (if val < 0 then push_bit bit_width 1 + val else val)
      in algorithm_loop (key @ [val' AND (push_bit bit_width 1 - 1)]) seed)"

definition algorithm :: "int list \<Rightarrow> int list" where
  "algorithm seed = algorithm_loop [] seed"

text \<open>
  \<^verbatim>\<open>Action._authentication(id)\<close>. Iterating over an absent seed raises TypeError. An
  exception ends the run; the state it leaves behind is not modelled.
\<close>

definition authentication :: "int \<Rightarrow> int \<Rightarrow> session \<Rightarrow> error + session" where
  "authentication my_id ecu st =
     (let st1 = st\<lparr>sent := sent st @ [Authentication_seed ecu]\<rparr> in
      case passive_response my_id AUTHENTICATION st1 of
        Inl e \<Rightarrow> Inl e
      | Inr (frame_response, st2) \<Rightarrow>
          (case data_from_frame frame_response of
             Inl e \<Rightarrow> Inl e
           | Inr None \<Rightarrow> Inl TypeError
           | Inr (Some seed) \<Rightarrow>
               (let key = algorithm seed;
                    st3 = st2\<lparr>sent := sent st2 @ [Authentication_key ecu key]\<rparr>
                in case passive_response my_id AUTHENTICATION st3 of
                     Inl e \<Rightarrow> Inl e
                   | Inr (r, st4) \<Rightarrow> Inr st4)))"

section \<open>Formatting\<close>

text \<open>
  Python's \<^verbatim>\<open>hex\<close>: a sign, the prefix \<^verbatim>\<open>0x\<close> and the lowercase digits of the absolute
  value without leading zeros.
\<close>

definition hex_digit :: "nat \<Rightarrow> char" where
  "hex_digit d = ''0123456789abcdef'' ! d"

fun hex_digits :: "nat \<Rightarrow> string" where
  "hex_digits n =
     (if n < 16 then [hex_digit n] else hex_digits (n div 16) @ [hex_digit (n mod 16)])"

declare hex_digits.simps [simp del]

definition hex :: "int \<Rightarrow> string" where
  "hex i = (if i < 0 then ''-0x'' @ hex_digits (nat (- i)) else ''0x'' @ hex_digits (nat i))"

text \<open>\<^verbatim>\<open>Action._list_to_number(list)\<close>: the loop extends the string \<^verbatim>\<open>number\<close>.\<close>

fun list_to_number_loop :: "string \<Rightarrow> int list \<Rightarrow> string" where
  "list_to_number_loop number [] = number"
| "list_to_number_loop number (item # rest) =
     list_to_number_loop
       ((if item \<le> 0xF then number @ ''0'' else number) @ drop 2 (hex item)) rest"

definition list_to_number :: "int list \<Rightarrow> string" where
  "list_to_number l = list_to_number_loop [] l"

text \<open>\<^verbatim>\<open>Action._read_by_identifier(id, identifier)\<close>; an absent data list raises TypeError.\<close>

definition read_by_identifier :: "int \<Rightarrow> int \<Rightarrow> int \<Rightarrow> session \<Rightarrow> error + (string \<times> session)" where
  "read_by_identifier my_id ecu identifier st =
     (let st1 = st\<lparr>sent := sent st @ [Read_data_by_identifier ecu identifier]\<rparr> in
      case passive_response my_id READ_BY_IDENTIFIER st1 of
        Inl e \<Rightarrow> Inl e
      | Inr (frame_response, st2) \<Rightarrow>
          (case data_from_frame frame_response of
             Inl e \<Rightarrow> Inl e
           | Inr None \<Rightarrow> Inl TypeError
           | Inr (Some d) \<Rightarrow> Inr (list_to_number d, st2)))"

text \<open>
  The decoder the round-trip property speaks of: two lowercase hexadecimal digits give
  one byte, high digit first; any other character, or an odd length, gives no result.
\<close>

definition hex_value :: "char \<Rightarrow> int option" where
  "hex_value c = map_of (zip ''0123456789abcdef'' (map int [0..<16])) c"

fun decode_hex :: "string \<Rightarrow> int list option" where
  "decode_hex [] = Some []"
| "decode_hex [c] = None"
| "decode_hex (h # l # rest) =
     (case hex_value h of
        None \<Rightarrow> None
      | Some hv \<Rightarrow>
          (case hex_value l of
             None \<Rightarrow> None
           | Some lv \<Rightarrow>
               (case decode_hex rest of
                  None \<Rightarrow> None
                | Some bs \<Rightarrow> Some ((16 * hv + lv) # bs))))"

section \<open>Shared facts\<close>

lemma handlers_apply:
  "handlers c =
     (if c = 0x29 then Some AuthenticationSeed_data_from_frame
      else if c = 0x63 then Some ReadByAddress_data_from_frame
      else if c = 0x62 then Some ReadByIdentifier_data_from_frame
      else None)"
  by (simp add: handlers_def)

lemma nibble_offset:
  "nat (3 + (uint (b::byte) mod 0x10 + uint b div 0x10)) = 3 + unat b mod 0x10 + unat b div 0x10"
  by (simp add: nat_add_distrib nat_mod_distrib nat_div_distrib pos_imp_zdiv_nonneg_iff)

lemma ReadByAddress_reads_offset_2:
  assumes "2 < length (data msg)"
  shows "ReadByAddress_data_from_frame msg =
           Inr (map uint (drop (3 + unat (data msg ! 2) mod 0x10 + unat (data msg ! 2) div 0x10)
                            (data msg)))"
  using assms
  by (simp add: ReadByAddress_data_from_frame_def byte_at_def nibble_offset del: nat_add_distrib)




lemma key_byte: "(if v < 0 then push_bit 8 1 + v else v) AND (push_bit 8 1 - 1) = (v::int) mod 256"
proof -
  have "(w::int) AND 255 = w mod 256" for w
    using take_bit_eq_mask [of 8 w, symmetric] by (simp add: take_bit_eq_mod mask_eq_exp_minus_1)
  then show ?thesis by simp
qed

lemma algorithm_loop_map: "algorithm_loop key seed = key @ map (\<lambda>v. v mod 256) seed"
  by (induction seed arbitrary: key) (simp_all add: Let_def key_byte del: push_bit_of_1)

lemma hex_value_digit: "d < 16 \<Longrightarrow> hex_value (hex_digit d) = Some (int d)"
proof -
  assume d: "d < 16"
  have "map_of (zip ''0123456789abcdef'' (map int [0..<16])) (''0123456789abcdef'' ! d)
          = Some (map int [0..<16] ! d)"
    by (rule map_of_zip_nth) (use d in simp_all)
  then show ?thesis using d by (simp add: hex_value_def hex_digit_def del: upt_conv_Cons)
qed

lemma hex_digit_mem: "d < 16 \<Longrightarrow> hex_digit d \<in> set ''0123456789abcdef''"
  unfolding hex_digit_def by (rule nth_mem) simp

lemma byte_two_digits:
  assumes "0 \<le> x" "x \<le> 255"
  shows "(if x \<le> 0xF then n @ ''0'' else n) @ drop 2 (hex x)
           = n @ [hex_digit (nat x div 16), hex_digit (nat x mod 16)]"
proof (cases "x \<le> 0xF")
  case True
  then have "nat x < 16" using assms by simp
  then have "hex_digits (nat x) = [hex_digit (nat x)]" "nat x div 16 = 0" "nat x mod 16 = nat x"
    by (simp_all add: hex_digits.simps)
  then show ?thesis using True assms by (simp add: hex_def hex_digit_def)
next
  case False
  then have a: "\<not> nat x < 16" "nat x div 16 < 16" using assms by simp_all
  have "hex_digits (nat x) = hex_digits (nat x div 16) @ [hex_digit (nat x mod 16)]"
    using a(1) by (subst hex_digits.simps) simp
  moreover have "hex_digits (nat x div 16) = [hex_digit (nat x div 16)]"
    using a(2) by (subst hex_digits.simps) simp
  ultimately show ?thesis using False assms by (simp add: hex_def)
qed

lemma list_to_number_loop_concat:
  assumes "\<forall>x \<in> set s. 0 \<le> x \<and> x \<le> 255"
  shows "list_to_number_loop n s
           = n @ concat (map (\<lambda>x. [hex_digit (nat x div 16), hex_digit (nat x mod 16)]) s)"
  using assms
proof (induction s arbitrary: n)
  case Nil
  then show ?case by simp
next
  case (Cons x s)
  then have x: "0 \<le> x" "x \<le> 255" and s: "\<forall>x \<in> set s. 0 \<le> x \<and> x \<le> 255" by simp_all
  show ?case
    by (simp only: list_to_number_loop.simps byte_two_digits [OF x] Cons.IH [OF s]) simp
qed

lemma decode_hex_concat:
  assumes "\<forall>x \<in> set s. 0 \<le> x \<and> x \<le> 255"
  shows "decode_hex (concat (map (\<lambda>x. [hex_digit (nat x div 16), hex_digit (nat x mod 16)]) s))
           = Some s"
  using assms
proof (induction s)
  case Nil
  then show ?case by simp
next
  case (Cons x s)
  then have x: "0 \<le> x" "x \<le> 255" and s: "\<forall>x \<in> set s. 0 \<le> x \<and> x \<le> 255" by simp_all
  have d: "nat x div 16 < 16" "nat x mod 16 < 16" using x by simp_all
  have "16 * int (nat x div 16) + int (nat x mod 16) = x"
    using x by (simp add: zdiv_int zmod_int)
  then show ?case
    using Cons.IH [OF s] by (simp add: hex_value_digit [OF d(1)] hex_value_digit [OF d(2)])
qed

lemma collect_loop_raises:
  "collect_loop f e m b = Inl err \<Longrightarrow>
     err = IndexError \<or> err = AttributeError \<or> err = TypeError"
proof (induction f e m b rule: collect_loop.induct)
  case (1 flag msg_ext b)
  then show ?case by simp
next
  case (2 flag msg_ext msg b)
  then show ?case
    by (auto simp: byte_at_def msg_getitem_from_1_def split: if_splits option.splits)
qed

lemma verify_frame_raises: "verify_frame my_id msg sid = Inl err \<Longrightarrow> err = IndexError"
  by (auto simp: verify_frame_def byte_at_def split: if_splits)

lemma passive_response_raises:
  "passive_response my_id sid st = Inl err \<Longrightarrow>
     err = IndexError \<or> err = AttributeError \<or> err = TypeError"
  by (auto simp: passive_response_def collect_response_def Let_def
      split: sum.splits prod.splits option.splits if_splits
      dest: collect_loop_raises verify_frame_raises)

section \<open>Verification of a frame\<close>

text \<open>
  C1, as stated, at a frame from the expected sender whose payload has one byte: the
  service-code condition fails, since there is no byte at offset 1, so the claim has the
  frame rejected. The source reads \<^verbatim>\<open>msg.data[1]\<close> and raises IndexError: it returns
  neither verdict.
\<close>

theorem verify_frame_short_payload_raises:
  "verify_frame 0xFA \<lparr>arbitration_id = 0x1FA, data = [0x05]\<rparr> 0x22 = Inl IndexError
   \<and> verify_frame 0xFA \<lparr>arbitration_id = 0x1FA, data = [0x05]\<rparr> 0x22 \<noteq> Inr False"
  by (simp add: verify_frame_def byte_at_def)

text \<open>
  C1, amended: for every frame that is from another sender, or whose payload reaches the
  offset of the service code (offset 2 when the first payload byte is \<open>0x10\<close>, offset 1
  otherwise), verification returns a verdict, and it accepts exactly when the identifier
  modulo \<open>0x100\<close> equals the expected sender id and the byte at that offset equals
  \<open>sid + 0x40\<close>; otherwise it rejects.
\<close>

theorem verify_frame_accepts_iff:
  assumes "arbitration_id msg mod 0x100 \<noteq> my_id
           \<or> (if data msg ! 0 = 0x10 then 2 else 1) < length (data msg)"
  shows "verify_frame my_id msg sid =
           Inr (arbitration_id msg mod 0x100 = my_id
                \<and> uint (data msg ! (if data msg ! 0 = 0x10 then 2 else 1)) = sid + 0x40)"
  using assms by (auto simp: verify_frame_def byte_at_def split: if_splits)

theorem verify_frame_accepts_iff_witness:
  "verify_frame 0xFA \<lparr>arbitration_id = 0x1FA, data = [0x03, 0x62, 0xF1, 0x90]\<rparr> 0x22 = Inr True
   \<and> verify_frame 0xFA \<lparr>arbitration_id = 0x1FA, data = [0x10, 0x0A, 0x62, 0xF1]\<rparr> 0x22 = Inr True
   \<and> verify_frame 0xFA \<lparr>arbitration_id = 0x1FA, data = [0x03, 0x7F, 0x22, 0x31]\<rparr> 0x22 = Inr False
   \<and> verify_frame 0xFA \<lparr>arbitration_id = 0x1FB, data = []\<rparr> 0x22 = Inr False"
  using verify_frame_accepts_iff
          [of "\<lparr>arbitration_id = 0x1FA, data = [0x03, 0x62, 0xF1, 0x90]\<rparr>" "0xFA" "0x22"]
        verify_frame_accepts_iff
          [of "\<lparr>arbitration_id = 0x1FA, data = [0x10, 0x0A, 0x62, 0xF1]\<rparr>" "0xFA" "0x22"]
        verify_frame_accepts_iff
          [of "\<lparr>arbitration_id = 0x1FA, data = [0x03, 0x7F, 0x22, 0x31]\<rparr>" "0xFA" "0x22"]
        verify_frame_accepts_iff
          [of "\<lparr>arbitration_id = 0x1FB, data = []\<rparr>" "0xFA" "0x22"]
  by simp

section \<open>Reassembly\<close>

text \<open>
  C2, at a transport that delivers a First-Frame: the collector reassembles nothing. On
  the First-Frame it evaluates \<^verbatim>\<open>msg[1:]\<close> and raises TypeError, whatever the frames
  that follow; so it does on the First-Frame followed by the Consecutive-Frames with
  markers \<open>0x21\<close> and \<open>0x22\<close>, where the reassembled payload was to be the three
  frames' bytes after their markers.
\<close>

theorem collect_response_first_frame_raises:
  "collect_response my_id sid (Some \<lparr>arbitration_id = i, data = 0x10 # ftail\<rparr> # rest)
     = Inl TypeError
   \<and> collect_response 0xFA 0x22
       [Some \<lparr>arbitration_id = 0x1FA, data = [0x10, 0x0A, 0x62, 0xF1, 0x90, 0x01, 0x02, 0x03]\<rparr>,
        Some \<lparr>arbitration_id = 0x1FA, data = [0x21, 0x04, 0x05, 0x06]\<rparr>,
        Some \<lparr>arbitration_id = 0x1FA, data = [0x22, 0x07]\<rparr>]
     = Inl TypeError"
  by (simp add: collect_response_def byte_at_def msg_getitem_from_1_def)

section \<open>Key computation\<close>

text \<open>
  C6: for every seed whose values lie in \<open>[-128, 255]\<close>, the key has the length of the
  seed and follows its order: each key value lies in \<open>[0, 255]\<close>, is the seed value plus
  256 where that is negative and the seed value itself otherwise. The seed value \<open>-1\<close>
  gives the key value 255.
\<close>

theorem algorithm_key_bytes:
  assumes "\<forall>v \<in> set seed. - 128 \<le> v \<and> v \<le> 255"
  shows "length (algorithm seed) = length seed
       \<and> (\<forall>i < length seed.
             0 \<le> algorithm seed ! i \<and> algorithm seed ! i \<le> 255
           \<and> (seed ! i < 0 \<longrightarrow> algorithm seed ! i = seed ! i + 256)
           \<and> (0 \<le> seed ! i \<longrightarrow> algorithm seed ! i = seed ! i))
       \<and> algorithm [- 1] = [255]"
proof -
  have a: "algorithm s = map (\<lambda>v. v mod 256) s" for s
    by (simp add: algorithm_def algorithm_loop_map)
  have "\<forall>i < length seed. - 128 \<le> seed ! i \<and> seed ! i \<le> 255"
    using assms by simp
  moreover have "(v::int) < 0 \<Longrightarrow> - 128 \<le> v \<Longrightarrow> v mod 256 = v + 256" for v
    using mod_pos_pos_trivial [of "v + 256" 256] by simp
  ultimately show ?thesis
    unfolding a by auto
qed

theorem algorithm_key_bytes_witness:
  "length (algorithm [- 128, 7]) = 2
   \<and> algorithm [- 128, 7] ! 0 = 128 \<and> algorithm [- 128, 7] ! 1 = 7"
proof -
  have h: "\<forall>v \<in> set [- 128, 7 :: int]. - 128 \<le> v \<and> v \<le> 255" by simp
  note t = algorithm_key_bytes [OF h]
  have i: "i < 2 \<Longrightarrow>
             ([- 128, 7 :: int] ! i < 0 \<longrightarrow> algorithm [- 128, 7] ! i = [- 128, 7] ! i + 256)
           \<and> (0 \<le> [- 128, 7 :: int] ! i \<longrightarrow> algorithm [- 128, 7] ! i = [- 128, 7] ! i)" for i
    using t by simp
  show ?thesis using t i [of 0] i [of 1] by simp
qed

section \<open>Hexadecimal formatting\<close>

text \<open>
  C7: for every list \<open>s\<close> of integers in \<open>[0, 255]\<close>, \<open>list_to_number s\<close> has exactly
  \<open>2 * length s\<close> characters, all of them lowercase hexadecimal digits; it is the
  concatenation, in order, of the two digits of each byte; and decoding it two digits at
  a time gives \<open>s\<close> back.
\<close>

theorem list_to_number_round_trip:
  assumes "\<forall>x \<in> set s. 0 \<le> x \<and> x \<le> 255"
  shows "length (list_to_number s) = 2 * length s
       \<and> set (list_to_number s) \<subseteq> set ''0123456789abcdef''
       \<and> list_to_number s
           = concat (map (\<lambda>x. [hex_digit (nat x div 16), hex_digit (nat x mod 16)]) s)
       \<and> decode_hex (list_to_number s) = Some s"
proof -
  have l: "list_to_number s
             = concat (map (\<lambda>x. [hex_digit (nat x div 16), hex_digit (nat x mod 16)]) s)"
    using list_to_number_loop_concat [OF assms, of "[]"] by (simp add: list_to_number_def)
  have len: "length (concat (map (\<lambda>x. [hex_digit (nat x div 16), hex_digit (nat x mod 16)]) t))
               = 2 * length t" for t :: "int list"
    by (induction t) simp_all
  have mem: "set (concat (map (\<lambda>x. [hex_digit (nat x div 16), hex_digit (nat x mod 16)]) s))
               \<subseteq> set ''0123456789abcdef''"
  proof
    fix c
    assume "c \<in> set (concat (map (\<lambda>x. [hex_digit (nat x div 16), hex_digit (nat x mod 16)]) s))"
    then obtain x where x: "x \<in> set s"
      and c: "c = hex_digit (nat x div 16) \<or> c = hex_digit (nat x mod 16)"
      by auto
    have "nat x div 16 < 16" "nat x mod 16 < 16" using assms x by auto
    then show "c \<in> set ''0123456789abcdef''"
      using c hex_digit_mem by blast
  qed
  show ?thesis
    unfolding l using len mem decode_hex_concat [OF assms] by simp
qed

theorem list_to_number_round_trip_witness:
  "length (list_to_number [0, 15, 16, 171, 255]) = 10
   \<and> list_to_number [0, 15, 16, 171, 255] = ''000f10abff''
   \<and> decode_hex (list_to_number [0, 15, 16, 171, 255]) = Some [0, 15, 16, 171, 255]"
proof -
  have h: "\<forall>x \<in> set [0, 15, 16, 171, 255 :: int]. 0 \<le> x \<and> x \<le> 255" by simp
  have r: "list_to_number [0, 15, 16, 171, 255] = ''000f10abff''"
    using list_to_number_round_trip [OF h] by (simp add: hex_digit_def)
  have "length (list_to_number [0, 15, 16, 171, 255]) = 2 * length [0, 15, 16, 171, 255 :: int]"
    and "decode_hex (list_to_number [0, 15, 16, 171, 255]) = Some [0, 15, 16, 171, 255]"
    using list_to_number_round_trip [OF h] by blast+
  then show ?thesis using r by simp
qed

section \<open>Absent responses\<close>

text \<open>
  C3, at a transport on which every poll times out, and at one that delivers a negative
  response: collection returns no frame, and \<^verbatim>\<open>_passive_response\<close> returns that absent
  response to its caller. The error response it builds is dropped: on no input does a
  \<open>CustomError\<close> carry an "interrupted" response out of the method, whose own
  documentation says that it raises one.
\<close>

theorem passive_response_timeout_returns_absent:
  "collect_response my_id sid [] = Inr (None, [])
   \<and> passive_response my_id sid \<lparr>bus = [], sent = s, clock = t\<rparr>
       = Inr (None, \<lparr>bus = [], sent = s, clock = t\<rparr>)
   \<and> passive_response 0xFA 0x22
         \<lparr>bus = [Some \<lparr>arbitration_id = 0x1FA, data = [0x03, 0x7F, 0x22, 0x31]\<rparr>],
          sent = s, clock = t\<rparr>
       = Inr (None, \<lparr>bus = [], sent = s, clock = t\<rparr>)
   \<and> passive_response my_id sid st \<noteq> Inl (CustomError env)"
  using passive_response_raises [of my_id sid st "CustomError env"]
  by (auto simp add: passive_response_def collect_response_def verify_frame_def byte_at_def)

text \<open>
  C4, at a transport on which every poll times out: the seed request gets no response,
  and the handshake goes on. It takes the stand-in list for the seed, computes the key
  from it, submits the key and returns without an error.
\<close>

theorem authentication_continues_without_seed:
  "authentication my_id ecu \<lparr>bus = [], sent = [], clock = t\<rparr>
     = Inr \<lparr>bus = [],
            sent = [Authentication_seed ecu, Authentication_key ecu [1, 2, 3, 4, 5]],
            clock = t\<rparr>"
  by (simp add: authentication_def passive_response_def collect_response_def
        data_from_frame_def algorithm_def)

text \<open>
  C5, at a transport on which every poll times out: the absent frame is passed to the
  extractor, which produces data for it, and the read returns that data formatted.
\<close>

theorem read_by_identifier_extracts_without_frame:
  "data_from_frame None = Inr (Some [1, 2, 3, 4, 5])
   \<and> read_by_identifier my_id ecu identifier \<lparr>bus = [], sent = [], clock = t\<rparr>
       = Inr (''0102030405'',
              \<lparr>bus = [], sent = [Read_data_by_identifier ecu identifier], clock = t\<rparr>)"
  by (simp add: read_by_identifier_def passive_response_def collect_response_def
        data_from_frame_def list_to_number_def hex_def hex_digits.simps hex_digit_def)

section \<open>Extraction\<close>

text \<open>
  C8, as stated, at the two-byte response \<open>[0x02, 0x63]\<close>: the collector verifies and
  returns it for service \<open>0x23\<close>, it carries code \<open>0x63\<close>, and it has no byte at
  payload offset 2. Extraction reads \<^verbatim>\<open>msg.data[2]\<close> and raises IndexError: it returns
  no payload bytes.
\<close>

theorem ReadByAddress_two_byte_response_raises:
  "collect_response 0xFA 0x23 [Some \<lparr>arbitration_id = 0x1FA, data = [0x02, 0x63]\<rparr>]
     = Inr (Some \<lparr>arbitration_id = 0x1FA, data = [0x02, 0x63]\<rparr>, [])
   \<and> data_from_frame (Some \<lparr>arbitration_id = 0x1FA, data = [0x02, 0x63]\<rparr>) = Inl IndexError
   \<and> ReadByAddress_data_from_frame \<lparr>arbitration_id = 0x1FA, data = [0x02, 0x63]\<rparr>
       = Inl IndexError"
  by (simp add: collect_response_def verify_frame_def data_from_frame_def byte_at_def
        handlers_apply ReadByAddress_data_from_frame_def)

text \<open>
  C8, amended: for every response with code \<open>0x63\<close> at its service-code offset whose
  payload has at least three bytes, extraction reads the byte \<open>b\<close> at payload offset 2
  and returns the payload from offset \<open>3 + b mod 0x10 + b div 0x10\<close> to the end,
  through the dispatch and in the handler itself; with \<open>b = 0x14\<close> the data starts at
  offset 8.
\<close>

theorem ReadByAddress_extraction:
  assumes "2 < length (data msg)"
      and "uint (data msg ! (if data msg ! 0 = 0x10 then 2 else 1)) = 0x63"
  shows "data_from_frame (Some msg) =
           Inr (Some (map uint
             (drop (3 + unat (data msg ! 2) mod 0x10 + unat (data msg ! 2) div 0x10) (data msg))))
       \<and> ReadByAddress_data_from_frame msg =
           Inr (map uint
             (drop (3 + unat (data msg ! 2) mod 0x10 + unat (data msg ! 2) div 0x10) (data msg)))
       \<and> (data msg ! 2 = 0x14 \<longrightarrow>
            data_from_frame (Some msg) = Inr (Some (map uint (drop 8 (data msg)))))"
proof -
  have "data_from_frame (Some msg) =
          (case ReadByAddress_data_from_frame msg of Inl e \<Rightarrow> Inl e | Inr d \<Rightarrow> Inr (Some d))"
    using assms
    by (auto simp: data_from_frame_def byte_at_def handlers_apply split: if_splits)
  then show ?thesis
    unfolding ReadByAddress_reads_offset_2 [OF assms(1)] by simp
qed

theorem ReadByAddress_extraction_witness:
  "data_from_frame
     (Some \<lparr>arbitration_id = 0x1FA,
            data = [0x0B, 0x63, 0x14, 0x00, 0x00, 0x10, 0x00, 0x02, 0xDE, 0xAD]\<rparr>)
     = Inr (Some [0xDE, 0xAD])"
  using ReadByAddress_extraction
          [of "\<lparr>arbitration_id = 0x1FA,
                data = [0x0B, 0x63, 0x14, 0x00, 0x00, 0x10, 0x00, 0x02, 0xDE, 0xAD]\<rparr>"]
  by simp



section \<open>Out-of-range reads\<close>

text \<open>
  C10, as stated, at a ReadByIdentifier response of three bytes: the payload is shorter
  than offset 4, where the data is read, and extraction takes no error branch. The read
  is a slice, which is empty past the end.
\<close>

theorem short_ReadByIdentifier_payload_no_error:
  "data_from_frame (Some \<lparr>arbitration_id = 0x1FA, data = [0x03, 0x62, 0x01]\<rparr>) = Inr (Some [])"
  by (simp add: data_from_frame_def byte_at_def handlers_apply
        ReadByIdentifier_data_from_frame_def)

text \<open>
  C10, amended: verification and extraction read single payload bytes without a length
  check at offset 0, at the service-code offset (2 after a first byte \<open>0x10\<close>, else 1)
  and, for ReadByAddress, at offset 2. Verification raises IndexError exactly when the
  sender matches and the payload does not reach the service-code offset; extraction
  raises IndexError exactly when the payload does not reach the service-code offset, or
  is a two-byte response with code \<open>0x63\<close>. The data itself is read by slices (from
  offset 4, from offset 3, from 3 plus the nibble sum), which raise nothing: a payload
  that ends before the slice starts gives empty data.
\<close>

theorem index_errors_exactly:
  "(verify_frame my_id msg sid = Inl e \<longleftrightarrow>
      e = IndexError \<and> arbitration_id msg mod 0x100 = my_id
      \<and> length (data msg) \<le> (if data msg ! 0 = 0x10 then 2 else 1))
   \<and> (data_from_frame (Some msg) = Inl e \<longleftrightarrow>
      e = IndexError
      \<and> (length (data msg) \<le> (if data msg ! 0 = 0x10 then 2 else 1)
         \<or> uint (data msg ! 1) = 0x63 \<and> length (data msg) = 2))
   \<and> (length (data msg) \<le> 4 \<longrightarrow> ReadByIdentifier_data_from_frame msg = Inr [])
   \<and> (length (data msg) \<le> 3 \<longrightarrow> AuthenticationSeed_data_from_frame msg = Inr [])
   \<and> (2 < length (data msg)
        \<and> length (data msg) \<le> 3 + unat (data msg ! 2) mod 0x10 + unat (data msg ! 2) div 0x10
      \<longrightarrow> ReadByAddress_data_from_frame msg = Inr [])"
proof -
  have v: "verify_frame my_id msg sid = Inl e \<longleftrightarrow>
      e = IndexError \<and> arbitration_id msg mod 0x100 = my_id
      \<and> length (data msg) \<le> (if data msg ! 0 = 0x10 then 2 else 1)"
    by (auto simp: verify_frame_def byte_at_def split: if_splits)
  have x: "data_from_frame (Some msg) = Inl e \<longleftrightarrow>
      e = IndexError
      \<and> (length (data msg) \<le> (if data msg ! 0 = 0x10 then 2 else 1)
         \<or> uint (data msg ! 1) = 0x63 \<and> length (data msg) = 2)"
    by (auto simp: data_from_frame_def byte_at_def handlers_apply
          ReadByAddress_data_from_frame_def ReadByIdentifier_data_from_frame_def
          AuthenticationSeed_data_from_frame_def Let_def split: if_splits)
  have i: "length (data msg) \<le> 4 \<longrightarrow> ReadByIdentifier_data_from_frame msg = Inr []"
    by (simp add: ReadByIdentifier_data_from_frame_def)
  have s: "length (data msg) \<le> 3 \<longrightarrow> AuthenticationSeed_data_from_frame msg = Inr []"
    by (simp add: AuthenticationSeed_data_from_frame_def)
  have a: "2 < length (data msg)
        \<and> length (data msg) \<le> 3 + unat (data msg ! 2) mod 0x10 + unat (data msg ! 2) div 0x10
      \<longrightarrow> ReadByAddress_data_from_frame msg = Inr []"
    by (simp add: ReadByAddress_reads_offset_2)
  show ?thesis using v x i s a by blast
qed

theorem index_errors_exactly_witness:
  "verify_frame 0xFA \<lparr>arbitration_id = 0x1FA, data = [0x10, 0x62]\<rparr> 0x22 = Inl IndexError
   \<and> data_from_frame (Some \<lparr>arbitration_id = 0x1FA, data = [0x10, 0x62]\<rparr>) = Inl IndexError
   \<and> ReadByIdentifier_data_from_frame \<lparr>arbitration_id = 0x1FA, data = [0x10, 0x62]\<rparr> = Inr []
   \<and> AuthenticationSeed_data_from_frame \<lparr>arbitration_id = 0x1FA, data = [0x10, 0x62]\<rparr> = Inr []
   \<and> ReadByAddress_data_from_frame \<lparr>arbitration_id = 0x1FA, data = [0x04, 0x63, 0x14, 0x01]\<rparr>
       = Inr []"
  using index_errors_exactly
          [of "0xFA" "\<lparr>arbitration_id = 0x1FA, data = [0x10, 0x62]\<rparr>" "0x22" IndexError]
        index_errors_exactly
          [of "0xFA" "\<lparr>arbitration_id = 0x1FA, data = [0x04, 0x63, 0x14, 0x01]\<rparr>" "0x22" IndexError]
  by simp

end
